theory Spec2Isabelle
  imports
    Main
    "HOL-Library.Sublist"
    "HOL-Library.AList"
    "HOL-Library.Char_ord"
    "HOL-Library.List_Lexorder"
begin

section \<open>Text primitives of the Python runtime\<close>

text \<open>
  A Python \<open>str\<close> is modelled as an Isabelle \<open>string\<close>. A character of the model is one
  of the 256 code points below U+0100, numbered by \<open>of_char\<close>; \<open>str.lower\<close> and
  \<open>str.isspace\<close> are given for exactly these code points. Comparison of strings is
  lexicographic by code point, as Python's is.
\<close>

definition is_upper :: "char \<Rightarrow> bool" where
  "is_upper c =
     (let n = (of_char c :: nat)
      in (65 \<le> n \<and> n \<le> 90) \<or> (192 \<le> n \<and> n \<le> 214) \<or> (216 \<le> n \<and> n \<le> 222))"

definition lower_char :: "char \<Rightarrow> char" where
  "lower_char c = (if is_upper c then char_of (of_char c + (32 :: nat)) else c)"

text \<open>\<open>s.lower()\<close>\<close>

definition lower :: "string \<Rightarrow> string" where
  "lower s = map lower_char s"

text \<open>\<open>c.isspace()\<close>: TAB, LF, VT, FF, CR, FS, GS, RS, US, SPACE, NEL, NBSP.\<close>

definition isspace :: "char \<Rightarrow> bool" where
  "isspace c =
     (let n = (of_char c :: nat)
      in (9 \<le> n \<and> n \<le> 13) \<or> (28 \<le> n \<and> n \<le> 32) \<or> n = 133 \<or> n = 160)"

text \<open>
  \<open>s.strip()\<close> and \<open>s.strip(chars)\<close>: the characters to remove are given as a predicate;
  they are taken off the front, then off the back.
\<close>

definition strip_where :: "(char \<Rightarrow> bool) \<Rightarrow> string \<Rightarrow> string" where
  "strip_where P s = rev (dropWhile P (rev (dropWhile P s)))"

definition strip :: "string \<Rightarrow> string" where
  "strip s = strip_where isspace s"

text \<open>
  \<open>s.replace(old, new)\<close>: one scan from the left; at a position where \<open>old\<close> starts,
  \<open>new\<close> is written and the scan goes on behind the occurrence. With an empty \<open>old\<close>,
  Python writes \<open>new\<close> before every character and at the end.
\<close>

function replace :: "string \<Rightarrow> string \<Rightarrow> string \<Rightarrow> string" where
  "replace old new s =
     (if old = [] then new @ concat (map (\<lambda>c. c # new) s)
      else if s = [] then []
      else if prefix old s then new @ replace old new (drop (length old) s)
      else hd s # replace old new (tl s))"
  by pat_completeness auto
termination
  by (relation "measure (\<lambda>(old, new, s). length s)") auto

declare replace.simps [simp del]

text \<open>The regular expression class \<open>[a-z0-9]\<close>.\<close>

definition is_key_char :: "char \<Rightarrow> bool" where
  "is_key_char c =
     (let n = (of_char c :: nat) in (97 \<le> n \<and> n \<le> 122) \<or> (48 \<le> n \<and> n \<le> 57))"

text \<open>
  \<open>re.sub(r'[^a-z0-9]+', '_', s)\<close>: the pattern is greedy, so each match is a maximal
  run of characters outside the class, and each run becomes one underscore.
\<close>

function re_sub_runs :: "string \<Rightarrow> string" where
  "re_sub_runs [] = []"
| "re_sub_runs (c # cs) =
     (if is_key_char c then c # re_sub_runs cs
      else CHR ''_'' # re_sub_runs (dropWhile (\<lambda>d. \<not> is_key_char d) cs))"
  by pat_completeness auto
termination
  by (relation "measure length") (auto simp: le_imp_less_Suc length_dropWhile_le)

text \<open>\<open>sep.join(xs)\<close>\<close>

fun join :: "string \<Rightarrow> string list \<Rightarrow> string" where
  "join sep [] = []"
| "join sep [x] = x"
| "join sep (x # y # ys) = x @ sep @ join sep (y # ys)"

text \<open>\<open>s.split(d)\<close> for a separator of one character: never an empty list.\<close>

fun split :: "char \<Rightarrow> string \<Rightarrow> string list" where
  "split d [] = [[]]"
| "split d (c # cs) =
     (if c = d then [] # split d cs
      else (case split d cs of [] \<Rightarrow> [[c]] | w # ws \<Rightarrow> (c # w) # ws))"

text \<open>\<open>str(n)\<close> for a natural number: its decimal digits.\<close>

fun str_nat :: "nat \<Rightarrow> string" where
  "str_nat n =
     (if n < 10 then [char_of (48 + n)]
      else str_nat (n div 10) @ [char_of (48 + n mod 10)])"

declare str_nat.simps [simp del]

section \<open>The canonicalizer\<close>

text \<open>
  \<^verbatim>\<open>
  def normalize_name(name):
      s = str(name).lower()
      s = s.replace('[skill badge]', '').strip()
      s = s.replace('gen ai', 'genai')
      s = re.sub(r'[^a-z0-9]+', '_', s)
      s = s.strip('_')
      return s
  \<close>
\<close>

definition normalize_name :: "string \<Rightarrow> string" where
  "normalize_name name =
     (let s = lower name;
          s = strip (replace ''[skill badge]'' '''' s);
          s = replace ''gen ai'' ''genai'' s;
          s = re_sub_runs s;
          s = strip_where (\<lambda>c. c = CHR ''_'') s
      in s)"

section \<open>Data of an upload\<close>

text \<open>
  A record of the store (a JSON object) and the payload \<open>update_data\<close> are Python dicts:
  association lists in insertion order. \<open>AList.update\<close> is the dict assignment
  \<open>d[k] = v\<close>: an existing key keeps its place, a new key goes to the end.
\<close>

type_synonym db_record = "(string \<times> string) list"
type_synonym payload = "(string \<times> string) list"

text \<open>The response of the store client: \<open>response.data\<close> and \<open>response.count\<close>.\<close>

record api_response =
  data :: "db_record list"
  count :: "int option"

text \<open>
  A row of the data frame gives a cell for a column name. The cell is \<open>None\<close> where
  \<open>pd.notna\<close> is false (an empty cell, read as NaN), and otherwise \<open>Some\<close> of the text
  that \<open>str\<close> gives for the cell.
\<close>

type_synonym row = "string \<rightharpoonup> string"

record dataframe =
  columns :: "string list"
  rows :: "row list"

text \<open>
  The collaborators of the request handler. A call that raises returns \<open>Inl\<close> of the
  exception's message. The store is a state of any type \<open>'s\<close>; an update returns the
  store after the call. \<open>'f\<close> is the content of the uploaded file.
\<close>

record ('f, 's) services =
  secure_filename :: "string \<Rightarrow> string"
  read_excel :: "'f \<Rightarrow> string + dataframe"
  read_csv :: "'f \<Rightarrow> string + dataframe"
  select_limit_1 :: "'s \<Rightarrow> string + api_response"
  update_eq :: "'s \<Rightarrow> payload \<Rightarrow> string \<Rightarrow> (string + api_response) \<times> 's"

text \<open>The body of the reply: \<open>details\<close> of a completed run, and the two shapes of reply.\<close>

record final_log =
  updates :: "string list"
  users_not_found :: "string list"
  mismatched_lab_names :: "string list"

datatype http_response =
    Json_error string nat
  | Json_ok string final_log

text \<open>
  The variables of the row loop. \<open>mismatched_labs_log\<close> is a Python set, kept as a list
  without duplicates (its order is never observed: the reply sorts it). \<open>requests\<close> is
  not a variable of the program: it records, in order, the payload and the email of every
  update request sent to the store.
\<close>

record 's run =
  update_log :: "string list"
  total_updates :: nat
  not_found_log :: "string list"
  mismatched_labs_log :: "string list"
  requests :: "(payload \<times> string) list"
  store :: 's

section \<open>The request handler\<close>

definition quoted :: "string \<Rightarrow> string" where
  "quoted s = CHR 0x27 # s @ [CHR 0x27]"

text \<open>\<open>{normalize_name(col): col for col in original_columns}\<close>: a later column wins.\<close>

definition column_map :: "string list \<Rightarrow> (string \<rightharpoonup> string)" where
  "column_map original_columns =
     foldl (\<lambda>m col. m(normalize_name col \<mapsto> col)) Map.empty original_columns"

text \<open>The truth value of \<open>column_map.get(k)\<close>: \<open>None\<close> and the empty string are false.\<close>

fun truthy :: "string option \<Rightarrow> bool" where
  "truthy None = False"
| "truthy (Some s) = (s \<noteq> [])"

definition mismatch_line :: "string \<Rightarrow> string" where
  "mismatch_line lab_name =
     quoted (strip lab_name) @ '' from file did not match any database column.''"

text \<open>The loop over \<open>completed_labs\<close> (lines 104 to 115), on \<open>update_data\<close> and the set.\<close>

fun stage_labs ::
  "(string \<rightharpoonup> string) \<Rightarrow> string list \<Rightarrow> payload \<times> string list \<Rightarrow> payload \<times> string list"
where
  "stage_labs cm [] acc = acc"
| "stage_labs cm (lab_name # labs) (update_data, mismatched) =
     (if lab_name = [] then stage_labs cm labs (update_data, mismatched)
      else
        let normalized_lab = normalize_name lab_name;
            original_column_name = cm normalized_lab
        in if truthy original_column_name
           then stage_labs cm labs
                  (AList.update (the original_column_name) ''Yes'' update_data, mismatched)
           else stage_labs cm labs
                  (update_data, List.insert (mismatch_line lab_name) mismatched))"

definition updated_line :: "string \<Rightarrow> payload \<Rightarrow> string" where
  "updated_line user_name update_data =
     ''Updated '' @ str_nat (length update_data) @ '' labs for '' @ quoted user_name @ '': ''
       @ join '', '' (map fst update_data) @ ''.''"

definition no_updates_line :: "string \<Rightarrow> string" where
  "no_updates_line user_name =
     ''No new updates for '' @ quoted user_name @ '' (data may already be current).''"

definition failed_line :: "string \<Rightarrow> string \<Rightarrow> string" where
  "failed_line user_name e =
     ''FAILED to update labs for '' @ quoted user_name @ ''. Error: '' @ e"

text \<open>
  The body of the inner \<open>try\<close> (lines 119 to 131). \<open>Inl\<close> is an exception with its
  message: raised by the store, or by \<open>data[0]["name"]\<close> (IndexError on an empty
  \<open>data\<close>, KeyError without the key). \<open>Inr\<close> is the log line to append and the number
  to add to \<open>total_updates\<close>.
\<close>

definition try_update ::
  "('f, 's) services \<Rightarrow> 's \<Rightarrow> payload \<Rightarrow> string \<Rightarrow> string \<Rightarrow> (string + string \<times> nat) \<times> 's"
where
  "try_update sv st update_data email user_name =
     (case update_eq sv st update_data email of
        (Inl e, st') \<Rightarrow> (Inl e, st')
      | (Inr response, st') \<Rightarrow>
          (case data response of
             [] \<Rightarrow> (Inl ''list index out of range'', st')
           | d0 # _ \<Rightarrow>
               (case map_of d0 ''name'' of
                  None \<Rightarrow> (Inl (quoted ''name''), st')
                | Some _ \<Rightarrow>
                    (if (case count response of None \<Rightarrow> False | Some c \<Rightarrow> c > 0)
                     then (Inr (updated_line user_name update_data, length update_data), st')
                     else (Inr (no_updates_line user_name, 0), st')))))"

text \<open>One turn of the loop over the rows (lines 90 to 134).\<close>

definition process_row ::
  "('f, 's) services \<Rightarrow> (string \<rightharpoonup> string) \<Rightarrow> row \<Rightarrow> 's run \<Rightarrow> 's run"
where
  "process_row sv cm row r =
     (let user_name_raw = row ''User Name'';
          email_raw = row ''User Email'';
          completed_labs_str = row ''Names of Completed Skill Badges''
      in case email_raw of
           None \<Rightarrow> r
         | Some e \<Rightarrow>
             let email = strip e;
                 user_name = (case user_name_raw of Some n \<Rightarrow> strip n | None \<Rightarrow> email)
             in (case completed_labs_str of
                   None \<Rightarrow> r
                 | Some ls \<Rightarrow>
                     if strip ls = [] then r
                     else
                       let completed_labs = map strip (split (CHR ''|'') ls);
                           (update_data, mismatched) =
                              stage_labs cm completed_labs ([], mismatched_labs_log r);
                           r1 = r\<lparr>mismatched_labs_log := mismatched\<rparr>
                       in if update_data = [] then r1
                          else
                            (case try_update sv (store r1) update_data email user_name of
                               (Inr (line, n), st') \<Rightarrow>
                                 r1\<lparr>update_log := update_log r1 @ [line],
                                    total_updates := total_updates r1 + n,
                                    requests := requests r1 @ [(update_data, email)],
                                    store := st'\<rparr>
                             | (Inl e, st') \<Rightarrow>
                                 r1\<lparr>update_log := update_log r1 @ [failed_line user_name e],
                                    requests := requests r1 @ [(update_data, email)],
                                    store := st'\<rparr>)))"

fun iterrows ::
  "('f, 's) services \<Rightarrow> (string \<rightharpoonup> string) \<Rightarrow> row list \<Rightarrow> 's run \<Rightarrow> 's run"
where
  "iterrows sv cm [] r = r"
| "iterrows sv cm (row # rest) r = iterrows sv cm rest (process_row sv cm row r)"

definition required_columns :: "string list" where
  "required_columns = [''User Name'', ''User Email'', ''Names of Completed Skill Badges'']"

definition missing_columns_error :: http_response where
  "missing_columns_error =
     Json_error
       ''File missing required columns: 'User Name', 'User Email', and 'Names of Completed Skill Badges'.''
       400"

definition start :: "'s \<Rightarrow> 's run" where
  "start st =
     \<lparr>update_log = [], total_updates = 0, not_found_log = [], mismatched_labs_log = [],
      requests = [], store = st\<rparr>"

definition processing_error :: "string \<Rightarrow> http_response" where
  "processing_error e = Json_error (''An error occurred while processing the file: '' @ e) 500"

text \<open>
  Lines 80 to 143 of \<open>upload_file\<close>: the check of the columns, the loop over the rows
  and the reply. The result is the reply, the update requests sent, and the store
  afterwards.
\<close>

definition reconcile ::
  "('f, 's) services \<Rightarrow> (string \<rightharpoonup> string) \<Rightarrow> dataframe \<Rightarrow> 's
     \<Rightarrow> http_response \<times> (payload \<times> string) list \<times> 's"
where
  "reconcile sv cm df st =
     (if \<not> list_all (\<lambda>col. col \<in> set (columns df)) required_columns
      then (missing_columns_error, [], st)
      else
        let r = iterrows sv cm (rows df) (start st);
            final_log =
              \<lparr>updates = update_log r,
               users_not_found = not_found_log r,
               mismatched_lab_names = sort (mismatched_labs_log r)\<rparr>;
            success_message =
              ''Processing complete. Attempted to apply '' @ str_nat (total_updates r)
                @ '' lab completion updates.''
        in (Json_ok success_message final_log, requests r, store r))"

text \<open>
  The handler of \<open>POST /upload\<close>. \<open>supabase\<close> says whether the client was created,
  \<open>file\<close> is \<open>request.files.get('file')\<close> with its filename, \<open>st\<close> is the store.
  After the check of the filename, \<open>if file:\<close> is true, so line 148 is not reached.
\<close>

definition upload_file ::
  "('f, 's) services \<Rightarrow> bool \<Rightarrow> (string \<times> 'f) option \<Rightarrow> 's
     \<Rightarrow> http_response \<times> (payload \<times> string) list \<times> 's"
where
  "upload_file sv supabase file st =
     (if \<not> supabase
      then (Json_error ''Supabase client is not initialized. Check server logs.'' 500, [], st)
      else case file of
        None \<Rightarrow> (Json_error ''No file part in the request'' 400, [], st)
      | Some (name, content) \<Rightarrow>
          if name = [] then (Json_error ''No file selected'' 400, [], st)
          else
            let filename = secure_filename sv name
            in (case select_limit_1 sv st of
                  Inl e \<Rightarrow> (processing_error e, [], st)
                | Inr response \<Rightarrow>
                    (case data response of
                       [] \<Rightarrow>
                         (Json_error
                            ''Could not fetch schema. Table 'participants' might be empty.'' 500,
                          [], st)
                     | d0 # _ \<Rightarrow>
                         let original_columns = map fst d0;
                             cm = column_map original_columns
                         in (case (if suffix ''.xls'' filename \<or> suffix ''.xlsx'' filename
                                   then read_excel sv content else read_csv sv content) of
                               Inl e \<Rightarrow> (processing_error e, [], st)
                             | Inr df \<Rightarrow> reconcile sv cm df st))))"

section \<open>A store and a request for the concrete instances\<close>

text \<open>
  A table of participants as a store. An update sets the fields of the payload in every
  record whose \<open>email\<close> equals the filter; the response carries the records updated and
  their number. The sample read returns the first record.
\<close>

definition table_update ::
  "db_record list \<Rightarrow> payload \<Rightarrow> string \<Rightarrow> (string + api_response) \<times> db_record list"
where
  "table_update tbl update_data email =
     (let hit = (\<lambda>rec. map_of rec ''email'' = Some email);
          tbl' = map (\<lambda>rec. if hit rec then AList.merge rec update_data else rec) tbl;
          changed = filter hit tbl'
      in (Inr \<lparr>data = changed, count = Some (int (length changed))\<rparr>, tbl'))"

text \<open>The same store behind a connection that is lost for one email.\<close>

definition flaky_update ::
  "db_record list \<Rightarrow> payload \<Rightarrow> string \<Rightarrow> (string + api_response) \<times> db_record list"
where
  "flaky_update tbl update_data email =
     (if email = ''a@x.com'' then (Inl ''connection reset'', tbl)
      else table_update tbl update_data email)"

definition table_services ::
  "(db_record list \<Rightarrow> payload \<Rightarrow> string \<Rightarrow> (string + api_response) \<times> db_record list)
     \<Rightarrow> (dataframe, db_record list) services"
where
  "table_services upd =
     \<lparr>secure_filename = (\<lambda>name. name),
      read_excel = (\<lambda>content. Inl ''Excel file format cannot be determined''),
      read_csv = (\<lambda>content. Inr content),
      select_limit_1 = (\<lambda>tbl. Inr \<lparr>data = take 1 tbl, count = None\<rparr>),
      update_eq = upd\<rparr>"

definition participants :: "db_record list" where
  "participants =
     [[(''email'', ''a@x.com''), (''name'', ''Alice''), (''Foo'', ''''), (''Bar'', '''')],
      [(''email'', ''b@x.com''), (''name'', ''Bob''), (''Foo'', ''''), (''Bar'', '''')]]"

definition schema :: "string \<rightharpoonup> string" where
  "schema = column_map [''email'', ''name'', ''Foo'', ''Bar'']"

text \<open>
  A store that keeps what it receives: its state is the list of the update requests it
  was sent, each with its payload and the email of its filter, in order.
\<close>

definition recording_update ::
  "(payload \<times> string) list \<Rightarrow> payload \<Rightarrow> string
     \<Rightarrow> (string + api_response) \<times> (payload \<times> string) list"
where
  "recording_update received update_data email =
     (Inr \<lparr>data = [[(''email'', email), (''name'', ''participant'')]], count = Some 1\<rparr>,
      received @ [(update_data, email)])"

definition recording_services :: "(dataframe, (payload \<times> string) list) services" where
  "recording_services =
     \<lparr>secure_filename = (\<lambda>name. name),
      read_excel = (\<lambda>content. Inl ''Excel file format cannot be determined''),
      read_csv = (\<lambda>content. Inr content),
      select_limit_1 = (\<lambda>received. Inr \<lparr>data = take 1 participants, count = None\<rparr>),
      update_eq = recording_update\<rparr>"

definition upload :: "row list \<Rightarrow> (string \<times> dataframe) option" where
  "upload rws = Some (''badges.csv'', \<lparr>columns = required_columns, rows = rws\<rparr>)"

definition upload_row :: "string \<Rightarrow> string \<Rightarrow> string \<Rightarrow> row" where
  "upload_row user_name email labs =
     [''User Name'' \<mapsto> user_name, ''User Email'' \<mapsto> email,
      ''Names of Completed Skill Badges'' \<mapsto> labs]"

section \<open>Predicates of the data model\<close>

text \<open>
  The NormalizedKey of the data model: a string over \<open>a-z\<close>, \<open>0-9\<close> and the underscore,
  with no underscore at either end and no two underscores in a row.
\<close>

fun no_double_underscore :: "string \<Rightarrow> bool" where
  "no_double_underscore (a # b # cs) =
     (\<not> (a = CHR ''_'' \<and> b = CHR ''_'') \<and> no_double_underscore (b # cs))"
| "no_double_underscore _ = True"

definition normalized_key :: "string \<Rightarrow> bool" where
  "normalized_key s =
     (list_all (\<lambda>c. is_key_char c \<or> c = CHR ''_'') s \<and> no_double_underscore s
      \<and> (s \<noteq> [] \<longrightarrow> hd s \<noteq> CHR ''_'' \<and> last s \<noteq> CHR ''_''))"

section \<open>Facts about the text primitives\<close>

lemma key_char_not_upper: "is_key_char c \<Longrightarrow> \<not> is_upper c"
  by (auto simp: is_key_char_def is_upper_def Let_def)

lemma key_char_not_space: "is_key_char c \<Longrightarrow> \<not> isspace c"
  by (auto simp: is_key_char_def isspace_def Let_def)

lemma underscore_not_key: "\<not> is_key_char (CHR ''_'')"
  by (simp add: is_key_char_def)

lemma bracket_not_key: "\<not> is_key_char (CHR ''['')"
  by (simp add: is_key_char_def)

lemma blank_not_key: "\<not> is_key_char (CHR '' '')"
  by (simp add: is_key_char_def)

lemma underscore_not_upper: "\<not> is_upper (CHR ''_'')"
  by (simp add: is_upper_def)

lemma lower_key_alphabet:
  "list_all (\<lambda>c. is_key_char c \<or> c = CHR ''_'') s \<Longrightarrow> lower s = s"
  unfolding lower_def
  by (rule map_idI) (auto simp: list_all_iff lower_char_def key_char_not_upper underscore_not_upper)

lemma replace_absent: "c \<in> set old \<Longrightarrow> c \<notin> set s \<Longrightarrow> replace old new s = s"
proof (induction old new s rule: replace.induct)
  case (1 old new s)
  show ?case
  proof (cases s)
    case Nil
    with "1.prems" show ?thesis by (auto simp: replace.simps)
  next
    case (Cons a as)
    from "1.prems" have ne: "old \<noteq> []" by auto
    from "1.prems" have np: "\<not> prefix old s"
      using set_mono_prefix by blast
    have "replace old new (tl s) = tl s"
      using "1.IH"(2) [OF ne _ np] "1.prems" Cons by auto
    with ne np Cons show ?thesis
      by (subst replace.simps) simp
  qed
qed

lemma strip_where_removes:
  "\<exists>pre post. s = pre @ strip_where P s @ post \<and> list_all P pre \<and> list_all P post"
proof -
  let ?a = "dropWhile P s"
  have 1: "s = takeWhile P s @ ?a" by simp
  have "rev ?a = takeWhile P (rev ?a) @ dropWhile P (rev ?a)" by simp
  then have "rev (rev ?a) = rev (takeWhile P (rev ?a) @ dropWhile P (rev ?a))"
    by (rule arg_cong)
  then have 2: "?a = strip_where P s @ rev (takeWhile P (rev ?a))"
    unfolding strip_where_def rev_append rev_rev_ident .
  have 3: "list_all P (takeWhile P s)" "list_all P (rev (takeWhile P (rev ?a)))"
    by (auto simp: list_all_iff dest: set_takeWhileD)
  from 1 2 have "s = takeWhile P s @ strip_where P s @ rev (takeWhile P (rev ?a))" by simp
  with 3 show ?thesis by blast
qed


lemma strip_where_hd: "strip_where P s \<noteq> [] \<Longrightarrow> \<not> P (hd (strip_where P s))"
proof -
  assume ne: "strip_where P s \<noteq> []"
  let ?a = "dropWhile P s"
  have ane: "?a \<noteq> []" using ne by (cases "?a = []") (simp_all add: strip_where_def)
  then have nP: "\<not> P (hd ?a)" by (rule hd_dropWhile)
  have "hd ?a \<in> set (rev ?a)" using ane by simp
  then have "last (dropWhile P (rev ?a)) = last (rev ?a)"
    using nP by (rule dropWhile_last)
  moreover have "dropWhile P (rev ?a) \<noteq> []" using ne by (simp add: strip_where_def)
  ultimately have "hd (strip_where P s) = hd ?a"
    using ane by (simp add: strip_where_def hd_rev last_rev)
  with nP show ?thesis by simp
qed

lemma strip_where_last: "strip_where P s \<noteq> [] \<Longrightarrow> \<not> P (last (strip_where P s))"
proof -
  assume ne: "strip_where P s \<noteq> []"
  then have "dropWhile P (rev (dropWhile P s)) \<noteq> []" by (simp add: strip_where_def)
  then have "\<not> P (hd (dropWhile P (rev (dropWhile P s))))" by (rule hd_dropWhile)
  then show ?thesis using ne by (simp add: strip_where_def last_rev)
qed

lemma strip_where_id:
  assumes "s \<noteq> [] \<Longrightarrow> \<not> P (hd s) \<and> \<not> P (last s)"
  shows "strip_where P s = s"
proof (cases s)
  case Nil
  then show ?thesis by (simp add: strip_where_def)
next
  case (Cons a as)
  with assms have a: "\<not> P (hd s)" and b: "\<not> P (last s)" by auto
  from a Cons have "dropWhile P s = s" by simp
  moreover have "hd (rev s) = last s" using Cons by (simp only: hd_rev)
  with b have "dropWhile P (rev s) = rev s"
    by (simp only: dropWhile_eq_self_iff) simp
  ultimately show ?thesis by (simp add: strip_where_def)
qed

lemma strip_where_idem: "strip_where P (strip_where P s) = strip_where P s"
  using strip_where_hd [of P s] strip_where_last [of P s] by (intro strip_where_id) simp

lemma strip_idem: "strip (strip s) = strip s"
  by (simp add: strip_def strip_where_idem)

lemma no_double_underscore_tl: "no_double_underscore (c # cs) \<Longrightarrow> no_double_underscore cs"
  by (cases cs) auto

lemma no_double_underscore_appendD1:
  "no_double_underscore (xs @ ys) \<Longrightarrow> no_double_underscore xs"
  by (induction xs rule: no_double_underscore.induct) auto

lemma no_double_underscore_appendD2:
  "no_double_underscore (xs @ ys) \<Longrightarrow> no_double_underscore ys"
  by (induction xs) (auto dest: no_double_underscore_tl)

lemma re_sub_runs_alphabet: "list_all (\<lambda>c. is_key_char c \<or> c = CHR ''_'') (re_sub_runs s)"
  by (induction s rule: re_sub_runs.induct) auto

lemma re_sub_runs_no_double: "no_double_underscore (re_sub_runs s)"
proof (induction s rule: re_sub_runs.induct)
  case 1
  show ?case by simp
next
  case (2 c cs)
  show ?case
  proof (cases "is_key_char c")
    case True
    with 2 show ?thesis
      by (cases "re_sub_runs cs") (auto simp: underscore_not_key)
  next
    case False
    let ?r = "dropWhile (\<lambda>d. \<not> is_key_char d) cs"
    have ih: "no_double_underscore (re_sub_runs ?r)" using 2 False by simp
    show ?thesis
    proof (cases ?r)
      case Nil
      with False show ?thesis by (simp del: dropWhile_eq_Nil_conv)
    next
      case (Cons d ds)
      then have "is_key_char d" using hd_dropWhile [of "\<lambda>d. \<not> is_key_char d" cs] by auto
      with Cons ih False show ?thesis by (auto simp: underscore_not_key)
    qed
  qed
qed

lemma re_sub_runs_id:
  "list_all (\<lambda>c. is_key_char c \<or> c = CHR ''_'') s \<Longrightarrow> no_double_underscore s
     \<Longrightarrow> re_sub_runs s = s"
proof (induction s rule: re_sub_runs.induct)
  case 1
  show ?case by simp
next
  case (2 c cs)
  show ?case
  proof (cases "is_key_char c")
    case True
    with 2 show ?thesis by (auto dest: no_double_underscore_tl)
  next
    case False
    with "2.prems" have c: "c = CHR ''_''" by simp
    have "dropWhile (\<lambda>d. \<not> is_key_char d) cs = cs"
    proof (cases cs)
      case Nil
      then show ?thesis by simp
    next
      case (Cons d ds)
      with "2.prems" c have "is_key_char d" by auto
      with Cons show ?thesis by simp
    qed
    with 2 False c show ?thesis by (auto dest: no_double_underscore_tl)
  qed
qed

lemma normalize_name_key: "normalized_key (normalize_name x)"
proof -
  define t where "t = re_sub_runs (replace ''gen ai'' ''genai''
                         (strip (replace ''[skill badge]'' '''' (lower x))))"
  let ?P = "\<lambda>c. c = CHR ''_''"
  have n: "normalize_name x = strip_where ?P t"
    by (simp add: normalize_name_def t_def)
  obtain pre post where d: "t = pre @ strip_where ?P t @ post"
    using strip_where_removes by blast
  have "list_all (\<lambda>c. is_key_char c \<or> c = CHR ''_'') t"
    unfolding t_def by (rule re_sub_runs_alphabet)
  then have "list_all (\<lambda>c. is_key_char c \<or> c = CHR ''_'') (pre @ strip_where ?P t @ post)"
    using d by simp
  then have a: "list_all (\<lambda>c. is_key_char c \<or> c = CHR ''_'') (strip_where ?P t)"
    by simp
  have "no_double_underscore t" unfolding t_def by (rule re_sub_runs_no_double)
  then have "no_double_underscore (pre @ strip_where ?P t @ post)" using d by simp
  then have b: "no_double_underscore (strip_where ?P t)"
    using no_double_underscore_appendD1 no_double_underscore_appendD2 by blast
  have c: "strip_where ?P t \<noteq> [] \<longrightarrow>
             hd (strip_where ?P t) \<noteq> CHR ''_'' \<and> last (strip_where ?P t) \<noteq> CHR ''_''"
    using strip_where_hd [of ?P t] strip_where_last [of ?P t] by blast
  from a b c show ?thesis unfolding n normalized_key_def by blast
qed

lemma normalize_name_fixes_key:
  assumes "normalized_key s"
  shows "normalize_name s = s"
proof -
  from assms have al: "list_all (\<lambda>c. is_key_char c \<or> c = CHR ''_'') s"
    and nd: "no_double_underscore s"
    and ends: "s \<noteq> [] \<Longrightarrow> hd s \<noteq> CHR ''_'' \<and> last s \<noteq> CHR ''_''"
    by (auto simp: normalized_key_def)
  have 1: "lower s = s" using al by (rule lower_key_alphabet)
  have "CHR ''['' \<notin> set s" using al by (auto simp: list_all_iff bracket_not_key)
  then have 2: "replace ''[skill badge]'' '''' s = s"
    by (intro replace_absent [of "CHR ''[''"]) simp_all
  have ek: "s \<noteq> [] \<Longrightarrow> is_key_char (hd s) \<and> is_key_char (last s)"
    using al ends by (auto simp: list_all_iff) 
  have 3: "strip s = s"
    unfolding strip_def using ek by (intro strip_where_id) (auto simp: key_char_not_space)
  have "CHR '' '' \<notin> set s" using al by (auto simp: list_all_iff blank_not_key)
  then have 4: "replace ''gen ai'' ''genai'' s = s"
    by (intro replace_absent [of "CHR '' ''"]) simp_all
  have 5: "re_sub_runs s = s" using al nd by (rule re_sub_runs_id)
  have 6: "strip_where (\<lambda>c. c = CHR ''_'') s = s"
    using ends by (intro strip_where_id) auto
  show ?thesis by (simp add: normalize_name_def 1 2 3 4 5 6)
qed

lemma lower_char_idem: "lower_char (lower_char c) = lower_char c"
  by (auto simp: lower_char_def is_upper_def Let_def)

lemma lower_idem: "lower (lower s) = lower s"
  by (simp add: lower_def lower_char_idem)

lemma lower_append: "lower (a @ b) = lower a @ lower b"
  by (simp add: lower_def)

lemma replace_at_occurrence:
  "old \<noteq> [] \<Longrightarrow> replace old new (old @ s) = new @ replace old new s"
  by (subst replace.simps) simp

lemma replace_no_occurrence:
  "old \<noteq> [] \<Longrightarrow> \<not> prefix old (c # s) \<Longrightarrow> replace old new (c # s) = c # replace old new s"
  by (subst replace.simps) simp

lemma strip_where_Cons: "P c \<Longrightarrow> strip_where P (c # s) = strip_where P s"
  by (simp add: strip_where_def)

lemma blank_isspace: "isspace (CHR '' '')"
  by (simp add: isspace_def)

section \<open>Facts about the loop over the labels\<close>

lemma set_update_subset: "set (AList.update k v al) \<subseteq> insert (k, v) (set al)"
  by (induction al) auto

lemma stage_labs_keys:
  "fst ` set (fst (stage_labs cm labs (ud, mm)))
     = fst ` set ud
       \<union> {col. \<exists>lab\<in>set labs. lab \<noteq> [] \<and> cm (normalize_name lab) = Some col \<and> col \<noteq> []}"
proof (induction labs arbitrary: ud mm)
  case Nil
  show ?case by simp
next
  case (Cons lab labs)
  show ?case
  proof (cases "lab \<noteq> [] \<and> truthy (cm (normalize_name lab))")
    case True
    then obtain col where c: "cm (normalize_name lab) = Some col" "col \<noteq> []"
      by (cases "cm (normalize_name lab)") auto
    with True Cons.IH [of "AList.update col ''Yes'' ud" mm] show ?thesis
      by (auto simp: dom_update)
  next
    case False
    then have n: "\<And>col. lab \<noteq> [] \<Longrightarrow> cm (normalize_name lab) = Some col \<Longrightarrow> col = []"
      by auto
    from False consider "lab = []" | "lab \<noteq> []" "\<not> truthy (cm (normalize_name lab))" by blast
    then show ?thesis
    proof cases
      case 1
      with Cons.IH [of ud mm] show ?thesis by auto
    next
      case 2
      with n Cons.IH [of ud "List.insert (mismatch_line lab) mm"] show ?thesis by auto
    qed
  qed
qed

lemma stage_labs_values:
  "snd ` set ud \<subseteq> {''Yes''} \<Longrightarrow> snd ` set (fst (stage_labs cm labs (ud, mm))) \<subseteq> {''Yes''}"
proof (induction labs arbitrary: ud mm)
  case Nil
  then show ?case by simp
next
  case (Cons lab labs)
  have u: "snd ` set (AList.update k ''Yes'' ud) \<subseteq> {''Yes''}" for k
  proof -
    have "snd ` set (AList.update k ''Yes'' ud) \<subseteq> snd ` insert (k, ''Yes'') (set ud)"
      by (rule image_mono) (rule set_update_subset)
    also have "\<dots> \<subseteq> {''Yes''}" using Cons.prems by simp
    finally show ?thesis .
  qed
  show ?case
  proof (cases "lab \<noteq> [] \<and> truthy (cm (normalize_name lab))")
    case True
    then show ?thesis
      using Cons.IH [OF u] by simp
  next
    case False
    then show ?thesis
      using Cons.IH [OF Cons.prems] by (cases "lab = []") simp_all
  qed
qed

lemma stage_labs_distinct_keys:
  "distinct (map fst ud) \<Longrightarrow> distinct (map fst (fst (stage_labs cm labs (ud, mm))))"
  by (induction labs arbitrary: ud mm) (simp_all add: Let_def distinct_update)

lemma stage_labs_mismatched:
  "set (snd (stage_labs cm labs (ud, mm)))
     = set mm \<union> {mismatch_line lab | lab.
                   lab \<in> set labs \<and> lab \<noteq> [] \<and> \<not> truthy (cm (normalize_name lab))}"
  by (induction labs arbitrary: ud mm) (auto simp: Let_def)

lemma stage_labs_distinct_mismatched:
  "distinct mm \<Longrightarrow> distinct (snd (stage_labs cm labs (ud, mm)))"
  by (induction labs arbitrary: ud mm) (simp_all add: Let_def)

lemma stage_labs_payload_independent:
  "fst (stage_labs cm labs (ud, mm)) = fst (stage_labs cm labs (ud, mm'))"
  by (induction labs arbitrary: ud mm mm') (simp_all add: Let_def)

lemma map_of_constant_value:
  assumes "k \<in> fst ` set al" and "snd ` set al \<subseteq> {y}"
  shows "map_of al k = Some y"
proof -
  from assms(1) obtain v where "map_of al k = Some v"
    by (cases "map_of al k") (auto simp: map_of_eq_None_iff)
  moreover from this have "(k, v) \<in> set al" by (rule map_of_SomeD)
  ultimately show ?thesis using assms(2) by force
qed


section \<open>Facts about one row and about the loop over the rows\<close>

lemma process_row_without_email: "row ''User Email'' = None \<Longrightarrow> process_row sv cm row r = r"
  by (simp add: process_row_def)

lemma process_row_without_labs:
  "row ''Names of Completed Skill Badges'' = None \<Longrightarrow> process_row sv cm row r = r"
  by (simp add: process_row_def split: option.splits)

lemma process_row_staged:
  assumes "row ''User Email'' = Some e"
    and "row ''Names of Completed Skill Badges'' = Some ls"
    and "strip ls \<noteq> []"
    and "stage_labs cm (map strip (split (CHR ''|'') ls)) ([], mismatched_labs_log r) = (ud, mm)"
    and "user_name = (case row ''User Name'' of Some n \<Rightarrow> strip n | None \<Rightarrow> strip e)"
  shows "process_row sv cm row r =
           (if ud = [] then r\<lparr>mismatched_labs_log := mm\<rparr>
            else case try_update sv (store r) ud (strip e) user_name of
                   (Inr (line, n), st') \<Rightarrow>
                     r\<lparr>update_log := update_log r @ [line],
                       total_updates := total_updates r + n,
                       mismatched_labs_log := mm,
                       requests := requests r @ [(ud, strip e)],
                       store := st'\<rparr>
                 | (Inl x, st') \<Rightarrow>
                     r\<lparr>update_log := update_log r @ [failed_line user_name x],
                       mismatched_labs_log := mm,
                       requests := requests r @ [(ud, strip e)],
                       store := st'\<rparr>)"
  using assms by (simp add: process_row_def Let_def split: prod.splits sum.splits)

lemma try_update_raised:
  "update_eq sv st ud email = (Inl x, st') \<Longrightarrow> try_update sv st ud email user_name = (Inl x, st')"
  by (simp add: try_update_def)

lemma try_update_named:
  assumes "update_eq sv st ud email = (Inr response, st')"
    and "data response = d0 # ds" and "map_of d0 ''name'' = Some v"
  shows "try_update sv st ud email user_name =
           (if (case count response of None \<Rightarrow> False | Some c \<Rightarrow> c > 0)
            then (Inr (updated_line user_name ud, length ud), st')
            else (Inr (no_updates_line user_name, 0), st'))"
  using assms by (simp add: try_update_def)

lemma try_update_store:
  "snd (try_update sv st ud email user_name) = snd (update_eq sv st ud email)"
  by (simp add: try_update_def split: prod.splits sum.splits list.splits option.splits)

lemma process_row_staged_effect:
  assumes "row ''User Email'' = Some e"
    and "row ''Names of Completed Skill Badges'' = Some ls"
    and "strip ls \<noteq> []"
    and "stage_labs cm (map strip (split (CHR ''|'') ls)) ([], mismatched_labs_log r) = (ud, mm)"
  shows "requests (process_row sv cm row r)
           = (if ud = [] then requests r else requests r @ [(ud, strip e)])"
    and "store (process_row sv cm row r)
           = (if ud = [] then store r else snd (update_eq sv (store r) ud (strip e)))"
proof -
  define user_name where
    "user_name = (case row ''User Name'' of Some n \<Rightarrow> strip n | None \<Rightarrow> strip e)"
  show "requests (process_row sv cm row r)
          = (if ud = [] then requests r else requests r @ [(ud, strip e)])"
    unfolding process_row_staged [OF assms user_name_def]
    by (simp split: prod.splits sum.splits)
  have "snd (try_update sv (store r) ud (strip e) user_name)
          = snd (update_eq sv (store r) ud (strip e))"
    by (rule try_update_store)
  then show "store (process_row sv cm row r)
               = (if ud = [] then store r else snd (update_eq sv (store r) ud (strip e)))"
    unfolding process_row_staged [OF assms user_name_def]
    by (auto split: prod.splits sum.splits)
qed

lemma iterrows_append:
  "iterrows sv cm (before @ after) r = iterrows sv cm after (iterrows sv cm before r)"
  by (induction before arbitrary: r) simp_all

lemma process_row_cases:
  obtains (skipped) "process_row sv cm row r = r"
  | (staged) e ls ud mm user_name where
      "row ''User Email'' = Some e"
      "row ''Names of Completed Skill Badges'' = Some ls"
      "strip ls \<noteq> []"
      "stage_labs cm (map strip (split (CHR ''|'') ls)) ([], mismatched_labs_log r) = (ud, mm)"
      "user_name = (case row ''User Name'' of Some n \<Rightarrow> strip n | None \<Rightarrow> strip e)"
proof (cases "row ''User Email''")
  case None
  then show ?thesis using skipped by (simp add: process_row_without_email)
next
  case e: (Some e)
  show ?thesis
  proof (cases "row ''Names of Completed Skill Badges''")
    case None
    then show ?thesis using skipped by (simp add: process_row_without_labs)
  next
    case ls: (Some ls)
    show ?thesis
    proof (cases "strip ls = []")
      case True
      with e ls show ?thesis using skipped by (simp add: process_row_def)
    next
      case False
      obtain ud mm where
        "stage_labs cm (map strip (split (CHR ''|'') ls)) ([], mismatched_labs_log r) = (ud, mm)"
        by (cases "stage_labs cm (map strip (split (CHR ''|'') ls)) ([], mismatched_labs_log r)")
      with e ls False show ?thesis using staged by blast
    qed
  qed
qed

lemma process_row_mismatched:
  "set (mismatched_labs_log r) \<subseteq> set (mismatched_labs_log (process_row sv cm row r))
   \<and> (distinct (mismatched_labs_log r) \<longrightarrow> distinct (mismatched_labs_log (process_row sv cm row r)))"
proof (cases rule: process_row_cases [of sv cm row r])
  case skipped
  then show ?thesis by simp
next
  case (staged e ls ud mm user_name)
  from staged(4) have mm: "mm = snd (stage_labs cm (map strip (split (CHR ''|'') ls))
                                   ([], mismatched_labs_log r))"
    by simp
  have 1: "set (mismatched_labs_log r) \<subseteq> set mm"
    unfolding mm stage_labs_mismatched by blast
  have 2: "distinct (mismatched_labs_log r) \<Longrightarrow> distinct mm"
    unfolding mm by (rule stage_labs_distinct_mismatched)
  have "mismatched_labs_log (process_row sv cm row r) = mm"
    unfolding process_row_staged [OF staged]
    by (simp split: prod.splits sum.splits)
  with 1 2 show ?thesis by simp
qed

lemma process_row_prefix:
  "prefix (update_log r) (update_log (process_row sv cm row r))
   \<and> prefix (requests r) (requests (process_row sv cm row r))"
proof (cases rule: process_row_cases [of sv cm row r])
  case skipped
  then show ?thesis by simp
next
  case (staged e ls ud mm user_name)
  show ?thesis
    unfolding process_row_staged [OF staged]
    by (simp split: prod.splits sum.splits)
qed

lemma process_row_request_keys:
  assumes "\<forall>(p, em)\<in>set (requests r). fst ` set p \<subseteq> ran cm"
  shows "\<forall>(p, em)\<in>set (requests (process_row sv cm row r)). fst ` set p \<subseteq> ran cm"
proof (cases rule: process_row_cases [of sv cm row r])
  case skipped
  with assms show ?thesis by simp
next
  case (staged e ls ud mm user_name)
  from staged(4) have "ud = fst (stage_labs cm (map strip (split (CHR ''|'') ls))
                                  ([], mismatched_labs_log r))"
    by simp
  then have "fst ` set ud
                 = fst ` set ([] :: payload)
                   \<union> {col. \<exists>lab\<in>set (map strip (split (CHR ''|'') ls)).
                            lab \<noteq> [] \<and> cm (normalize_name lab) = Some col \<and> col \<noteq> []}"
    by (simp only: stage_labs_keys)
  then have "fst ` set ud \<subseteq> ran cm"
    by (auto simp: ran_def)
  with assms show ?thesis
    unfolding process_row_staged [OF staged]
    by (auto split: prod.splits sum.splits)
qed

lemma iterrows_mismatched:
  "set (mismatched_labs_log r) \<subseteq> set (mismatched_labs_log (iterrows sv cm rws r))
   \<and> (distinct (mismatched_labs_log r) \<longrightarrow> distinct (mismatched_labs_log (iterrows sv cm rws r)))"
proof (induction rws arbitrary: r)
  case Nil
  show ?case by simp
next
  case (Cons row rws)
  from process_row_mismatched [of r sv cm row] Cons [of "process_row sv cm row r"]
  show ?case by auto
qed

lemma iterrows_prefix:
  "prefix (update_log r) (update_log (iterrows sv cm rws r))
   \<and> prefix (requests r) (requests (iterrows sv cm rws r))"
proof (induction rws arbitrary: r)
  case Nil
  show ?case by simp
next
  case (Cons row rws)
  from process_row_prefix [of r sv cm row] Cons [of "process_row sv cm row r"]
  show ?case by (auto intro: prefix_order.trans)
qed

lemma iterrows_request_keys:
  "\<forall>(p, em)\<in>set (requests r). fst ` set p \<subseteq> ran cm
     \<Longrightarrow> \<forall>(p, em)\<in>set (requests (iterrows sv cm rws r)). fst ` set p \<subseteq> ran cm"
proof (induction rws arbitrary: r)
  case Nil
  then show ?case by simp
next
  case (Cons row rws)
  from Cons.IH [OF process_row_request_keys [OF Cons.prems]] show ?case by simp
qed

lemma reconcile_complete:
  assumes "list_all (\<lambda>col. col \<in> set (columns df)) required_columns"
  shows "reconcile sv cm df st =
           (Json_ok (''Processing complete. Attempted to apply ''
                       @ str_nat (total_updates (iterrows sv cm (rows df) (start st)))
                       @ '' lab completion updates.'')
              \<lparr>updates = update_log (iterrows sv cm (rows df) (start st)),
               users_not_found = not_found_log (iterrows sv cm (rows df) (start st)),
               mismatched_lab_names = sort (mismatched_labs_log (iterrows sv cm (rows df) (start st)))\<rparr>,
            requests (iterrows sv cm (rows df) (start st)),
            store (iterrows sv cm (rows df) (start st)))"
  using assms by (simp add: reconcile_def Let_def)

lemma reconcile_missing_columns:
  "col \<in> set required_columns \<Longrightarrow> col \<notin> set (columns df)
     \<Longrightarrow> reconcile sv cm df st = (missing_columns_error, [], st)"
  by (auto simp: reconcile_def list_all_iff)

lemma stage_labs_unmatched_removed:
  "cm (normalize_name lab) = None
     \<Longrightarrow> fst (stage_labs cm labs (ud, mm)) = fst (stage_labs cm (removeAll lab labs) (ud, mm))"
proof (induction labs arbitrary: ud mm)
  case Nil
  show ?case by simp
next
  case (Cons x labs)
  show ?case
  proof (cases "x = lab")
    case True
    have "fst (stage_labs cm (x # labs) (ud, mm)) = fst (stage_labs cm labs (ud, mm))"
      using True Cons.prems
        stage_labs_payload_independent [of cm labs ud "List.insert (mismatch_line lab) mm" mm]
      by simp
    with True Cons.IH [OF Cons.prems] show ?thesis by simp
  next
    case False
    with Cons.IH [OF Cons.prems] show ?thesis by (simp add: Let_def)
  qed
qed

lemma process_row_staged_mismatched:
  assumes "row ''User Email'' = Some e"
    and "row ''Names of Completed Skill Badges'' = Some ls"
    and "strip ls \<noteq> []"
  shows "mismatched_labs_log (process_row sv cm row r)
           = snd (stage_labs cm (map strip (split (CHR ''|'') ls)) ([], mismatched_labs_log r))"
proof -
  obtain ud mm where
    st: "stage_labs cm (map strip (split (CHR ''|'') ls)) ([], mismatched_labs_log r) = (ud, mm)"
    by (cases "stage_labs cm (map strip (split (CHR ''|'') ls)) ([], mismatched_labs_log r)")
  show ?thesis
    unfolding process_row_staged [OF assms st refl] st
    by (simp split: prod.splits sum.splits)
qed

section \<open>The canonicalizer: idempotence\<close>

text \<open>
  C4. Normalization is idempotent: normalizing the result of a normalization gives that
  result again, for every input string. So a key that is already normalized is left as
  it is.
\<close>

theorem normalize_name_idempotent: "normalize_name (normalize_name x) = normalize_name x"
  using normalize_name_key by (rule normalize_name_fixes_key)

section \<open>The canonicalizer: the badge tag and letter case\<close>

text \<open>
  C9. Normalization is insensitive to letter case and to the bracket tag
  \<open>[Skill Badge]\<close> written in any case: for every string \<open>foo\<close>, normalizing the tag,
  a blank and \<open>foo\<close> gives what normalizing the lowercase of \<open>foo\<close> gives, which is what
  normalizing \<open>foo\<close> gives. The instance below is
  \<open>normalize("[Skill Badge] Foo") == normalize("foo")\<close>.
\<close>

theorem normalize_name_ignores_tag_and_case:
  assumes "lower tag = ''[skill badge]''"
  shows "normalize_name (tag @ '' '' @ foo) = normalize_name (lower foo)
         \<and> normalize_name (lower foo) = normalize_name foo"
proof -
  let ?old = "''[skill badge]''"
  have "lower (tag @ '' '' @ foo) = ?old @ CHR '' '' # lower foo"
    using assms by (simp add: lower_append) (simp add: lower_def lower_char_def is_upper_def)
  moreover have "replace ?old '''' (?old @ CHR '' '' # lower foo)
                   = '''' @ replace ?old '''' (CHR '' '' # lower foo)"
    by (rule replace_at_occurrence) simp
  moreover have "replace ?old '''' (CHR '' '' # lower foo)
                   = CHR '' '' # replace ?old '''' (lower foo)"
    by (rule replace_no_occurrence) simp_all
  ultimately have "strip (replace ?old '''' (lower (tag @ '' '' @ foo)))
                     = strip (replace ?old '''' (lower foo))"
    by (simp add: strip_def strip_where_Cons blank_isspace)
  then show ?thesis
    by (simp add: normalize_name_def lower_idem)
qed

theorem normalize_name_ignores_tag_and_case_witness:
  "lower ''[Skill Badge]'' = ''[skill badge]''
   \<and> normalize_name ''[Skill Badge] Foo'' = normalize_name ''foo''
   \<and> normalize_name ''foo'' = normalize_name ''Foo''"
proof -
  have h: "lower ''[Skill Badge]'' = ''[skill badge]''" by code_simp
  have l: "lower ''Foo'' = ''foo''" by code_simp
  show ?thesis
    using h normalize_name_ignores_tag_and_case [OF h, of "''Foo''"] by (simp add: l)
qed


section \<open>Missing columns\<close>

text \<open>
  C8. If one of the three required columns (User Name, User Email, Names of Completed
  Skill Badges) is absent from the uploaded file, the request ends with the error about
  missing columns (status 400) before any row is processed: no update request is sent and
  the store is as it was. The hypotheses say that the request gets as far as the check of
  the columns: the client exists, a file with a name was sent, the sample read returned a
  record, and the file was decoded.
\<close>

theorem missing_columns_fatal:
  assumes "supabase" and "file = Some (name, content)" and "name \<noteq> []"
    and "select_limit_1 sv st = Inr response" and "data response = d0 # ds"
    and "(if suffix ''.xls'' (secure_filename sv name) \<or> suffix ''.xlsx'' (secure_filename sv name)
          then read_excel sv content else read_csv sv content) = Inr df"
    and "col \<in> set required_columns" and "col \<notin> set (columns df)"
  shows "upload_file sv supabase file st = (missing_columns_error, [], st)"
  using assms by (simp add: upload_file_def reconcile_missing_columns)

theorem missing_columns_fatal_witness:
  "''User Email'' \<in> set required_columns
   \<and> ''User Email'' \<notin> set [''User Name'', ''Names of Completed Skill Badges'']
   \<and> upload_file (table_services table_update) True
         (Some (''badges.csv'',
                \<lparr>columns = [''User Name'', ''Names of Completed Skill Badges''],
                 rows = [upload_row ''Alice'' ''a@x.com'' ''Foo'']\<rparr>))
         participants
       = (Json_error ''File missing required columns: 'User Name', 'User Email', and 'Names of Completed Skill Badges'.'' 400,
          [], participants)"
proof -
  let ?df = "\<lparr>columns = [''User Name'', ''Names of Completed Skill Badges''],
              rows = [upload_row ''Alice'' ''a@x.com'' ''Foo'']\<rparr>"
  let ?sv = "table_services table_update"
  have 1: "''User Email'' \<in> set required_columns" by (simp add: required_columns_def)
  have 2: "''User Email'' \<notin> set (columns ?df)" by simp
  have 3: "select_limit_1 ?sv participants = Inr \<lparr>data = take 1 participants, count = None\<rparr>"
    by (simp add: table_services_def)
  have 4: "data \<lparr>data = take 1 participants, count = None\<rparr> = hd participants # []"
    by (simp add: participants_def)
  have 5: "(if suffix ''.xls'' (secure_filename ?sv ''badges.csv'')
               \<or> suffix ''.xlsx'' (secure_filename ?sv ''badges.csv'')
            then read_excel ?sv ?df else read_csv ?sv ?df) = Inr ?df"
    by (simp add: table_services_def suffix_def)
  show ?thesis
    using 1 2 missing_columns_fatal [OF _ refl _ 3 4 5 1 2]
    by (simp add: missing_columns_error_def)
qed

section \<open>The count reported by the store\<close>

text \<open>
  C1. The claim is that an update whose reported count is 0 or absent is logged as
  "No new updates". Here no participant has the email of the row, so the store reports
  count 0 with no record. Line 121 reads \<open>data[0]["name"]\<close> before the count is looked
  at; on the empty \<open>data\<close> this raises IndexError, which the handler of line 133 logs as
  a failure. The reply has the line "FAILED to update" and no line "No new updates".
\<close>

theorem zero_count_logged_as_failure:
  "update_eq (table_services table_update) participants [(''Foo'', ''Yes'')] ''c@x.com''
     = (Inr \<lparr>data = [], count = Some 0\<rparr>, participants)
   \<and> upload_file (table_services table_update) True
         (upload [upload_row ''Carol'' ''c@x.com'' ''Foo'']) participants
       = (Json_ok ''Processing complete. Attempted to apply 0 lab completion updates.''
            \<lparr>updates = [''FAILED to update labs for 'Carol'. Error: list index out of range''],
             users_not_found = [], mismatched_lab_names = []\<rparr>,
          [([(''Foo'', ''Yes'')], ''c@x.com'')],
          participants)"
  by code_simp

section \<open>Rows without an email\<close>

text \<open>
  C2. The claim is that a row whose email cell is blank or absent sends no update and
  adds no log line. A cell of blanks only is not NaN, so it passes \<open>pd.notna\<close> on line 95;
  the email becomes the empty string and the row is processed: an update request with
  the filter \<open>email = ''\<close> is sent and a line is added to the log. (The label cell, on
  line 100, is tested after \<open>strip\<close>.) An absent cell is skipped: see
  \<open>process_row_without_email\<close>.
\<close>

theorem blank_email_not_skipped:
  "upload_file (table_services table_update) True
     (upload [upload_row ''Carol'' ''  '' ''Foo'']) participants
   = (Json_ok ''Processing complete. Attempted to apply 0 lab completion updates.''
        \<lparr>updates = [''FAILED to update labs for 'Carol'. Error: list index out of range''],
         users_not_found = [], mismatched_lab_names = []\<rparr>,
      [([(''Foo'', ''Yes'')], '''')],
      participants)"
  by code_simp

section \<open>The email in the filter\<close>

text \<open>
  C7, as stated: the email is passed to the filter exactly as given in the row. This
  fails for a cell with blanks around the address: the filter that the store receives is
  the address without them.
\<close>

theorem padded_email_not_as_given:
  "upload_row ''Alice'' '' A@x.com '' ''Foo'' ''User Email'' = Some '' A@x.com ''
   \<and> map snd (requests (process_row (table_services table_update) schema
                          (upload_row ''Alice'' '' A@x.com '' ''Foo'') (start participants)))
       = [''A@x.com'']
   \<and> store (process_row recording_services schema
               (upload_row ''Alice'' '' A@x.com '' ''Foo'') (start []))
       = [([(''Foo'', ''Yes'')], ''A@x.com'')]
   \<and> ''A@x.com'' \<noteq> '' A@x.com ''"
  by code_simp

text \<open>
  C7, amended: the email passed to the equality filter of the update request of a row is
  the email cell of that row with the whitespace at both ends taken off, and nothing else
  is changed: the case of the letters is kept and the cell is not normalized. Either the
  row sends nothing and the store is as before, or the store after the row is the store
  after the one call of \<open>update_eq\<close> on the store before the row, with the payload of
  the row and the trimmed cell as its filter.
\<close>

theorem email_filter_is_trimmed_cell:
  assumes "row ''User Email'' = Some e"
  shows "((requests (process_row sv cm row r) = requests r
           \<and> store (process_row sv cm row r) = store r)
          \<or> (\<exists>ud. requests (process_row sv cm row r) = requests r @ [(ud, strip e)]
                  \<and> store (process_row sv cm row r)
                      = snd (update_eq sv (store r) ud (strip e))))
         \<and> (\<exists>pre post. e = pre @ strip e @ post \<and> list_all isspace pre \<and> list_all isspace post)"
proof -
  have "(requests (process_row sv cm row r) = requests r
           \<and> store (process_row sv cm row r) = store r)
        \<or> (\<exists>ud. requests (process_row sv cm row r) = requests r @ [(ud, strip e)]
                \<and> store (process_row sv cm row r)
                    = snd (update_eq sv (store r) ud (strip e)))"
  proof (cases rule: process_row_cases [of sv cm row r])
    case skipped
    then show ?thesis by simp
  next
    case (staged e' ls ud mm user_name)
    with assms have e: "e' = e" by simp
    note eff = process_row_staged_effect [OF staged(1,2,3,4), of sv, unfolded e]
    show ?thesis
    proof (cases "ud = []")
      case True
      with eff show ?thesis by simp
    next
      case False
      with eff have "requests (process_row sv cm row r) = requests r @ [(ud, strip e)]
                     \<and> store (process_row sv cm row r)
                         = snd (update_eq sv (store r) ud (strip e))"
        by simp
      then show ?thesis by blast
    qed
  qed
  moreover have "\<exists>pre post. e = pre @ strip e @ post \<and> list_all isspace pre \<and> list_all isspace post"
    unfolding strip_def by (rule strip_where_removes)
  ultimately show ?thesis by blast
qed

theorem email_filter_is_trimmed_cell_witness:
  "upload_row ''Alice'' '' A@x.COM '' ''Foo'' ''User Email'' = Some '' A@x.COM ''
   \<and> strip '' A@x.COM '' = ''A@x.COM''
   \<and> store (process_row recording_services schema
               (upload_row ''Alice'' '' A@x.COM '' ''Foo'') (start []))
       = [([(''Foo'', ''Yes'')], ''A@x.COM'')]
   \<and> (\<exists>ud. requests (process_row recording_services schema
                  (upload_row ''Alice'' '' A@x.COM '' ''Foo'') (start []))
                = [(ud, ''A@x.COM'')]
            \<and> store (process_row recording_services schema
                        (upload_row ''Alice'' '' A@x.COM '' ''Foo'') (start []))
                = snd (update_eq recording_services [] ud ''A@x.COM''))"
proof -
  let ?row = "upload_row ''Alice'' '' A@x.COM '' ''Foo''"
  let ?r0 = "start ([] :: (payload \<times> string) list)"
  let ?p = "process_row recording_services schema ?row ?r0"
  have h: "?row ''User Email'' = Some '' A@x.COM ''" by (simp add: upload_row_def)
  have s: "strip '' A@x.COM '' = ''A@x.COM''" by code_simp
  have n: "requests ?p \<noteq> requests ?r0"
    by code_simp
  have c: "store ?p = [([(''Foo'', ''Yes'')], ''A@x.COM'')]" by code_simp
  have r: "requests ?r0 = []"
    "store ?r0 = []"
    by (simp_all add: start_def)
  from email_filter_is_trimmed_cell
         [where row = ?row and e = "'' A@x.COM ''" and sv = recording_services
            and cm = schema and r = ?r0, OF h]
  have "(requests ?p = requests ?r0
           \<and> store ?p = store ?r0)
        \<or> (\<exists>ud. requests ?p = requests ?r0 @ [(ud, strip '' A@x.COM '')]
                \<and> store ?p
                    = snd (update_eq recording_services (store ?r0) ud
                             (strip '' A@x.COM '')))"
    by blast
  with n have "\<exists>ud. requests ?p = requests ?r0 @ [(ud, strip '' A@x.COM '')]
                   \<and> store ?p
                       = snd (update_eq recording_services (store ?r0) ud
                                (strip '' A@x.COM ''))"
    by blast
  then have "\<exists>ud. requests ?p = [(ud, ''A@x.COM'')]
                 \<and> store ?p = snd (update_eq recording_services [] ud ''A@x.COM'')"
    unfolding r s by simp
  with h s c show ?thesis by blast
qed

section \<open>Matched labels: one request per row\<close>

text \<open>
  C3. For a row with an email and a list of labels, every label whose normalized form is
  a key of the schema map is staged as field \<open>\<mapsto>\<close> "Yes" in the payload of the row; the
  fields of the payload are exactly the fields of these labels. If the payload is not
  empty, exactly one update request is issued to the store for the row: the store after
  the row is the store after one call of \<open>update_eq\<close> on the store before the row, with
  the whole payload and with the email of the row (trimmed) as the equality filter; all
  values of the payload are "Yes". If the payload is empty the store is as before. The
  schema map has no empty field name (a column of the store has a name). The instance is
  the row with email a@x.com and labels "Foo | [Skill Badge] Bar", sent to a store that
  keeps what it receives.
\<close>

theorem matched_labs_sent_in_one_request:
  assumes "row ''User Email'' = Some e"
    and "row ''Names of Completed Skill Badges'' = Some ls"
    and "strip ls \<noteq> []"
    and "labs = filter (\<lambda>lab. lab \<noteq> []) (map strip (split (CHR ''|'') ls))"
    and "\<forall>k. cm k \<noteq> Some []"
  shows "\<exists>ud. requests (process_row sv cm row r)
                 = (if ud = [] then requests r else requests r @ [(ud, strip e)])
              \<and> store (process_row sv cm row r)
                  = (if ud = [] then store r else snd (update_eq sv (store r) ud (strip e)))
              \<and> fst ` set ud = {col. \<exists>lab\<in>set labs. cm (normalize_name lab) = Some col}
              \<and> (\<forall>lab\<in>set labs. \<forall>col. cm (normalize_name lab) = Some col
                     \<longrightarrow> map_of ud col = Some ''Yes'')
              \<and> snd ` set ud \<subseteq> {''Yes''}"
proof -
  obtain ud mm where
    st: "stage_labs cm (map strip (split (CHR ''|'') ls)) ([], mismatched_labs_log r) = (ud, mm)"
    by (cases "stage_labs cm (map strip (split (CHR ''|'') ls)) ([], mismatched_labs_log r)")
  then have ud: "ud = fst (stage_labs cm (map strip (split (CHR ''|'') ls))
                            ([], mismatched_labs_log r))"
    by simp
  note eff = process_row_staged_effect [OF assms(1,2,3) st, of sv]
  have "fst ` set ud
          = fst ` set ([] :: payload)
            \<union> {col. \<exists>lab\<in>set (map strip (split (CHR ''|'') ls)).
                     lab \<noteq> [] \<and> cm (normalize_name lab) = Some col \<and> col \<noteq> []}"
    unfolding ud by (simp only: stage_labs_keys)
  also have "\<dots> = {col. \<exists>lab\<in>set labs. cm (normalize_name lab) = Some col}"
    using assms(5) unfolding assms(4) by auto
  finally have keys: "fst ` set ud = {col. \<exists>lab\<in>set labs. cm (normalize_name lab) = Some col}" .
  have vals: "snd ` set ud \<subseteq> {''Yes''}"
    unfolding ud by (rule stage_labs_values) simp
  have "map_of ud col = Some ''Yes''"
    if "lab \<in> set labs" and "cm (normalize_name lab) = Some col" for lab col
  proof -
    from that keys have "col \<in> fst ` set ud" by blast
    then show ?thesis using vals by (rule map_of_constant_value)
  qed
  with eff keys vals show ?thesis by blast
qed

theorem matched_labs_sent_in_one_request_witness:
  "store (process_row recording_services schema
            (upload_row ''Alice'' ''a@x.com'' ''Foo | [Skill Badge] Bar'') (start []))
     = [([(''Foo'', ''Yes''), (''Bar'', ''Yes'')], ''a@x.com'')]
   \<and> requests (process_row recording_services schema
                 (upload_row ''Alice'' ''a@x.com'' ''Foo | [Skill Badge] Bar'') (start []))
       = [([(''Foo'', ''Yes''), (''Bar'', ''Yes'')], ''a@x.com'')]
   \<and> (\<exists>ud. store (process_row recording_services schema
                     (upload_row ''Alice'' ''a@x.com'' ''Foo | [Skill Badge] Bar'') (start []))
                = (if ud = [] then [] else snd (update_eq recording_services [] ud ''a@x.com''))
            \<and> fst ` set ud
                = {col. \<exists>lab\<in>set [''Foo'', ''[Skill Badge] Bar''].
                          schema (normalize_name lab) = Some col}
            \<and> snd ` set ud \<subseteq> {''Yes''})"
proof -
  let ?row = "upload_row ''Alice'' ''a@x.com'' ''Foo | [Skill Badge] Bar''"
  let ?r0 = "start ([] :: (payload \<times> string) list)"
  let ?p = "process_row recording_services schema ?row ?r0"
  have h1: "?row ''User Email'' = Some ''a@x.com''" by (simp add: upload_row_def)
  have h2: "?row ''Names of Completed Skill Badges'' = Some ''Foo | [Skill Badge] Bar''"
    by (simp add: upload_row_def)
  have h3: "strip ''Foo | [Skill Badge] Bar'' \<noteq> []" by code_simp
  have h4: "[''Foo'', ''[Skill Badge] Bar'']
              = filter (\<lambda>lab. lab \<noteq> []) (map strip (split (CHR ''|'') ''Foo | [Skill Badge] Bar''))"
    by code_simp
  have n: "normalize_name ''email'' = ''email''" "normalize_name ''name'' = ''name''"
    "normalize_name ''Foo'' = ''foo''" "normalize_name ''Bar'' = ''bar''"
    by code_simp+
  have h5: "\<forall>k. schema k \<noteq> Some []"
    by (simp add: schema_def column_map_def n)
  have c: "store ?p = [([(''Foo'', ''Yes''), (''Bar'', ''Yes'')], ''a@x.com'')]"
    by code_simp
  have q: "requests ?p = [([(''Foo'', ''Yes''), (''Bar'', ''Yes'')], ''a@x.com'')]"
    by code_simp
  have s: "strip ''a@x.com'' = ''a@x.com''" by code_simp
  have r: "store ?r0 = []" by (simp add: start_def)
  from matched_labs_sent_in_one_request
         [OF h1 h2 h3 h4 h5, of recording_services ?r0]
  obtain ud where
    u1: "store ?p
           = (if ud = [] then store ?r0
              else snd (update_eq recording_services (store ?r0) ud (strip ''a@x.com'')))"
    and u2: "fst ` set ud
               = {col. \<exists>lab\<in>set [''Foo'', ''[Skill Badge] Bar''].
                         schema (normalize_name lab) = Some col}"
    and u3: "snd ` set ud \<subseteq> {''Yes''}"
    by blast
  from u1 have "store ?p
                  = (if ud = [] then [] else snd (update_eq recording_services [] ud ''a@x.com''))"
    unfolding r s by simp
  with c q u2 u3 show ?thesis by blast
qed

section \<open>An update that raises\<close>

text \<open>
  C5. If the update call of the store raises while a row is processed, the error is
  caught in that row: the line "FAILED to update labs for '<name>'. Error: <message>" is
  appended to the log, and the rows after it are processed in order from the state so
  reached. The run is completed: the reply is the success reply, its log starts with the
  log up to and including the failure line, and the requests sent start with those sent
  up to and including the failed one.
\<close>

theorem update_error_is_row_local:
  assumes "list_all (\<lambda>col. col \<in> set (columns df)) required_columns"
    and "rows df = before @ row # after"
    and "r1 = iterrows sv cm before (start st)"
    and "row ''User Email'' = Some e"
    and "row ''Names of Completed Skill Badges'' = Some ls"
    and "strip ls \<noteq> []"
    and "stage_labs cm (map strip (split (CHR ''|'') ls)) ([], mismatched_labs_log r1) = (ud, mm)"
    and "ud \<noteq> []"
    and "update_eq sv (store r1) ud (strip e) = (Inl msg, st')"
    and "user_name = (case row ''User Name'' of Some n \<Rightarrow> strip n | None \<Rightarrow> strip e)"
    and "r2 = r1\<lparr>update_log :=
                     update_log r1
                       @ [''FAILED to update labs for '' @ quoted user_name @ ''. Error: '' @ msg],
                   mismatched_labs_log := mm,
                   requests := requests r1 @ [(ud, strip e)],
                   store := st'\<rparr>"
  shows "process_row sv cm row r1 = r2
         \<and> iterrows sv cm (rows df) (start st) = iterrows sv cm after r2
         \<and> (\<exists>message details sent st''.
               reconcile sv cm df st = (Json_ok message details, sent, st'')
               \<and> prefix (update_log r2) (updates details)
               \<and> prefix (requests r2) sent)"
proof -
  have "try_update sv (store r1) ud (strip e) user_name = (Inl msg, st')"
    using assms(9) by (rule try_update_raised)
  then have row: "process_row sv cm row r1 = r2"
    unfolding process_row_staged [OF assms(4,5,6,7,10)] assms(11)
    using assms(8) by (simp add: failed_line_def)
  have run: "iterrows sv cm (rows df) (start st) = iterrows sv cm after r2"
    unfolding assms(2) iterrows_append
    using row assms(3) by simp
  have "prefix (update_log r2) (update_log (iterrows sv cm after r2))"
    and "prefix (requests r2) (requests (iterrows sv cm after r2))"
    using iterrows_prefix [of r2 sv cm after] by simp_all
  then have "prefix (update_log r2) (update_log (iterrows sv cm (rows df) (start st)))"
    and "prefix (requests r2) (requests (iterrows sv cm (rows df) (start st)))"
    unfolding run by simp_all
  then have "\<exists>message details sent st''.
               reconcile sv cm df st = (Json_ok message details, sent, st'')
               \<and> prefix (update_log r2) (updates details)
               \<and> prefix (requests r2) sent"
    unfolding reconcile_complete [OF assms(1)] by simp
  with row run show ?thesis by blast
qed


theorem update_error_is_row_local_witness:
  "update_eq (table_services flaky_update) participants [(''Foo'', ''Yes'')] ''a@x.com''
     = (Inl ''connection reset'', participants)
   \<and> iterrows (table_services flaky_update) schema
         [upload_row ''Alice'' ''a@x.com'' ''Foo'', upload_row ''Bob'' ''b@x.com'' ''Bar | Baz'']
         (start participants)
       = iterrows (table_services flaky_update) schema
           [upload_row ''Bob'' ''b@x.com'' ''Bar | Baz'']
           ((start participants)
              \<lparr>update_log := [''FAILED to update labs for 'Alice'. Error: connection reset''],
               requests := [([(''Foo'', ''Yes'')], ''a@x.com'')]\<rparr>)
   \<and> update_log (iterrows (table_services flaky_update) schema
         [upload_row ''Alice'' ''a@x.com'' ''Foo'', upload_row ''Bob'' ''b@x.com'' ''Bar | Baz'']
         (start participants))
       = [''FAILED to update labs for 'Alice'. Error: connection reset'',
          ''Updated 1 labs for 'Bob': Bar.'']"
proof -
  let ?sv = "table_services flaky_update"
  let ?alice = "upload_row ''Alice'' ''a@x.com'' ''Foo''"
  let ?bob = "upload_row ''Bob'' ''b@x.com'' ''Bar | Baz''"
  let ?df = "\<lparr>columns = required_columns, rows = [?alice, ?bob]\<rparr>"
  let ?r1 = "start participants"
  let ?r2 = "?r1\<lparr>update_log :=
                   update_log ?r1
                     @ [''FAILED to update labs for '' @ quoted ''Alice'' @ ''. Error: ''
                          @ ''connection reset''],
                 mismatched_labs_log := [],
                 requests := requests ?r1 @ [([(''Foo'', ''Yes'')], strip ''a@x.com'')],
                 store := participants\<rparr>"
  have h1: "list_all (\<lambda>col. col \<in> set (columns ?df)) required_columns"
    by (simp add: list_all_iff)
  have h2: "rows ?df = [] @ ?alice # [?bob]" by simp
  have h3: "?r1 = iterrows ?sv schema [] (start participants)" by simp
  have h4: "?alice ''User Email'' = Some ''a@x.com''" by (simp add: upload_row_def)
  have h5: "?alice ''Names of Completed Skill Badges'' = Some ''Foo''"
    by (simp add: upload_row_def)
  have h6: "strip ''Foo'' \<noteq> []" by code_simp
  have h7: "stage_labs schema (map strip (split (CHR ''|'') ''Foo''))
              ([], mismatched_labs_log ?r1) = ([(''Foo'', ''Yes'')], [])"
    by code_simp
  have h8: "[(''Foo'', ''Yes'')] \<noteq> ([] :: payload)" by simp
  have h9: "update_eq ?sv (store ?r1) [(''Foo'', ''Yes'')] (strip ''a@x.com'')
              = (Inl ''connection reset'', participants)"
    by code_simp
  have h10: "''Alice'' = (case ?alice ''User Name'' of Some n \<Rightarrow> strip n
                          | None \<Rightarrow> strip ''a@x.com'')"
    by code_simp
  have e: "update_eq ?sv participants [(''Foo'', ''Yes'')] ''a@x.com''
             = (Inl ''connection reset'', participants)"
    by code_simp
  have r2: "?r2 = ?r1\<lparr>update_log := [''FAILED to update labs for 'Alice'. Error: connection reset''],
                        requests := [([(''Foo'', ''Yes'')], ''a@x.com'')]\<rparr>"
    by code_simp
  have l: "update_log (iterrows ?sv schema [?alice, ?bob] ?r1)
             = [''FAILED to update labs for 'Alice'. Error: connection reset'',
                ''Updated 1 labs for 'Bob': Bar.'']"
    by code_simp
  from update_error_is_row_local [OF h1 h2 h3 h4 h5 h6 h7 h8 h9 h10 refl]
  have "iterrows ?sv schema (rows ?df) ?r1 = iterrows ?sv schema [?bob] ?r2" by blast
  then have "iterrows ?sv schema [?alice, ?bob] ?r1 = iterrows ?sv schema [?bob] ?r2"
    by simp
  with e l show ?thesis unfolding r2 by blast
qed

section \<open>Labels without a column\<close>

text \<open>
  C6. A label of a processed row whose normalized form is not a key of the schema map is
  not staged: the payload of the row is the payload of the row without this label, and
  every field of every update request sent in the run is a field of the schema map. The
  trimmed text of the label is in the reported list of mismatches, word for word, between
  quotes and followed by " from file did not match any database column."; this list has
  no duplicates over the whole run and is sorted.
\<close>

theorem unmatched_lab_reported_not_staged:
  assumes "list_all (\<lambda>col. col \<in> set (columns df)) required_columns"
    and "rows df = before @ row # after"
    and "row ''User Email'' = Some e"
    and "row ''Names of Completed Skill Badges'' = Some ls"
    and "strip ls \<noteq> []"
    and "piece \<in> set (split (CHR ''|'') ls)"
    and "strip piece \<noteq> []"
    and "cm (normalize_name (strip piece)) = None"
  shows "(\<exists>message details sent st'.
            reconcile sv cm df st = (Json_ok message details, sent, st')
            \<and> quoted (strip piece) @ '' from file did not match any database column.''
                \<in> set (mismatched_lab_names details)
            \<and> sorted (mismatched_lab_names details)
            \<and> distinct (mismatched_lab_names details)
            \<and> (\<forall>(ud, email)\<in>set sent. fst ` set ud \<subseteq> ran cm))
         \<and> fst (stage_labs cm (map strip (split (CHR ''|'') ls)) ([], mm0))
             = fst (stage_labs cm (removeAll (strip piece) (map strip (split (CHR ''|'') ls)))
                      ([], mm0))"
proof -
  let ?labs = "map strip (split (CHR ''|'') ls)"
  let ?line = "quoted (strip piece) @ '' from file did not match any database column.''"
  define r1 where "r1 = iterrows sv cm before (start st)"
  define r2 where "r2 = process_row sv cm row r1"
  define final where "final = iterrows sv cm (rows df) (start st)"
  have final: "final = iterrows sv cm after r2"
    unfolding final_def assms(2) iterrows_append r2_def r1_def by simp
  have lab: "strip piece \<in> set ?labs" using assms(6) by simp
  have "mismatch_line (strip piece) = ?line"
    by (simp add: mismatch_line_def strip_idem)
  moreover have "mismatch_line (strip piece)
                   \<in> set (snd (stage_labs cm ?labs ([], mismatched_labs_log r1)))"
    unfolding stage_labs_mismatched using lab assms(7,8) by auto
  ultimately have "?line \<in> set (mismatched_labs_log r2)"
    unfolding r2_def process_row_staged_mismatched [OF assms(3,4,5)] by simp
  then have member: "?line \<in> set (mismatched_labs_log final)"
    unfolding final using iterrows_mismatched [of r2 sv cm after] by blast
  have "distinct (mismatched_labs_log (start st))" by (simp add: start_def)
  then have dist: "distinct (mismatched_labs_log final)"
    unfolding final_def using iterrows_mismatched [of "start st" sv cm "rows df"] by blast
  have "\<forall>(p, em)\<in>set (requests (start st)). fst ` set p \<subseteq> ran cm" by (simp add: start_def)
  then have keys: "\<forall>(p, em)\<in>set (requests final). fst ` set p \<subseteq> ran cm"
    unfolding final_def by (rule iterrows_request_keys)
  have "reconcile sv cm df st =
          (Json_ok (''Processing complete. Attempted to apply '' @ str_nat (total_updates final)
                      @ '' lab completion updates.'')
             \<lparr>updates = update_log final, users_not_found = not_found_log final,
              mismatched_lab_names = sort (mismatched_labs_log final)\<rparr>,
           requests final, store final)"
    unfolding final_def by (rule reconcile_complete [OF assms(1)])
  moreover have "?line \<in> set (sort (mismatched_labs_log final))" using member by simp
  moreover have "sorted (sort (mismatched_labs_log final))" by simp
  moreover have "distinct (sort (mismatched_labs_log final))" using dist by simp
  ultimately have run: "\<exists>message details sent st'.
            reconcile sv cm df st = (Json_ok message details, sent, st')
            \<and> ?line \<in> set (mismatched_lab_names details)
            \<and> sorted (mismatched_lab_names details)
            \<and> distinct (mismatched_lab_names details)
            \<and> (\<forall>(ud, email)\<in>set sent. fst ` set ud \<subseteq> ran cm)"
    using keys by simp
  have "fst (stage_labs cm ?labs ([], mm0))
          = fst (stage_labs cm (removeAll (strip piece) ?labs) ([], mm0))"
    using assms(8) by (rule stage_labs_unmatched_removed)
  with run show ?thesis by blast
qed


theorem unmatched_lab_reported_not_staged_witness:
  "schema (normalize_name (strip ''zeta '')) = None
   \<and> (\<exists>message details sent st'.
         reconcile (table_services table_update) schema
           \<lparr>columns = required_columns,
            rows = [upload_row ''Alice'' ''a@x.com'' ''Foo | zeta | Alpha'',
                    upload_row ''Bob'' ''b@x.com'' ''zeta | Bar'']\<rparr>
           participants
           = (Json_ok message details, sent, st')
         \<and> (quoted ''zeta'' @ '' from file did not match any database column.'')
             \<in> set (mismatched_lab_names details)
         \<and> sorted (mismatched_lab_names details)
         \<and> distinct (mismatched_lab_names details))
   \<and> sort (mismatched_labs_log
         (iterrows (table_services table_update) schema
            [upload_row ''Alice'' ''a@x.com'' ''Foo | zeta | Alpha'',
             upload_row ''Bob'' ''b@x.com'' ''zeta | Bar'']
            (start participants)))
       = [(quoted ''Alpha'' @ '' from file did not match any database column.''),
          (quoted ''zeta'' @ '' from file did not match any database column.'')]"
proof -
  let ?alice = "upload_row ''Alice'' ''a@x.com'' ''Foo | zeta | Alpha''"
  let ?bob = "upload_row ''Bob'' ''b@x.com'' ''zeta | Bar''"
  let ?df = "\<lparr>columns = required_columns, rows = [?alice, ?bob]\<rparr>"
  have h1: "list_all (\<lambda>col. col \<in> set (columns ?df)) required_columns"
    by (simp add: list_all_iff)
  have h2: "rows ?df = [?alice] @ ?bob # []" by simp
  have h3: "?bob ''User Email'' = Some ''b@x.com''" by (simp add: upload_row_def)
  have h4: "?bob ''Names of Completed Skill Badges'' = Some ''zeta | Bar''"
    by (simp add: upload_row_def)
  have h5: "strip ''zeta | Bar'' \<noteq> []" by code_simp
  have h6: "''zeta '' \<in> set (split (CHR ''|'') ''zeta | Bar'')" by code_simp
  have h7: "strip ''zeta '' \<noteq> []" by code_simp
  have h8: "schema (normalize_name (strip ''zeta '')) = None" by code_simp
  have q: "quoted (strip ''zeta '') @ '' from file did not match any database column.''
             = (quoted ''zeta'' @ '' from file did not match any database column.'')"
    by code_simp
  have c: "sort (mismatched_labs_log
             (iterrows (table_services table_update) schema [?alice, ?bob] (start participants)))
           = [(quoted ''Alpha'' @ '' from file did not match any database column.''),
              (quoted ''zeta'' @ '' from file did not match any database column.'')]"
    by code_simp
  from unmatched_lab_reported_not_staged
         [where df = ?df and before = "[?alice]" and row = ?bob and after = "[]"
            and e = "''b@x.com''" and ls = "''zeta | Bar''" and piece = "''zeta ''"
            and cm = schema and sv = "table_services table_update" and st = participants,
          OF h1 h2 h3 h4 h5 h6 h7 h8]
  have "\<exists>message details sent st'.
          reconcile (table_services table_update) schema ?df participants
            = (Json_ok message details, sent, st')
          \<and> quoted (strip ''zeta '') @ '' from file did not match any database column.''
              \<in> set (mismatched_lab_names details)
          \<and> sorted (mismatched_lab_names details)
          \<and> distinct (mismatched_lab_names details)"
    by blast
  with h8 c show ?thesis unfolding q by blast
qed

section \<open>The payload is keyed by field\<close>

text \<open>
  C10. Within one row the payload is keyed by the field name: its keys are distinct, so
  labels that normalize to the same key of the schema map give one entry. The number of
  entries is the number of distinct fields matched, at most the number of labels of the
  row. On a successful update (a record with a name is returned and the count is
  positive) the log line names this number and these fields, and the total of the run
  grows by this number, not by the number of labels.
\<close>

theorem payload_keyed_by_field:
  assumes "row ''User Email'' = Some e"
    and "row ''Names of Completed Skill Badges'' = Some ls"
    and "strip ls \<noteq> []"
    and "labs = map strip (split (CHR ''|'') ls)"
    and "stage_labs cm labs ([], mismatched_labs_log r) = (ud, mm)"
    and "ud \<noteq> []"
    and "update_eq sv (store r) ud (strip e) = (Inr response, st')"
    and "data response = d0 # ds" and "map_of d0 ''name'' = Some v"
    and "count response = Some c" and "0 < c"
    and "user_name = (case row ''User Name'' of Some n \<Rightarrow> strip n | None \<Rightarrow> strip e)"
  shows "distinct (map fst ud)
         \<and> length ud
             = card {col. \<exists>lab\<in>set labs. lab \<noteq> [] \<and> cm (normalize_name lab) = Some col \<and> col \<noteq> []}
         \<and> length ud \<le> length (filter (\<lambda>lab. lab \<noteq> []) labs)
         \<and> update_log (process_row sv cm row r)
             = update_log r
               @ [''Updated '' @ str_nat (length ud) @ '' labs for '' @ quoted user_name @ '': ''
                    @ join '', '' (map fst ud) @ ''.'']
         \<and> total_updates (process_row sv cm row r) = total_updates r + length ud"
proof -
  from assms(5) have ud: "ud = fst (stage_labs cm labs ([], mismatched_labs_log r))" by simp
  have d: "distinct (map fst ud)"
    unfolding ud by (rule stage_labs_distinct_keys) simp
  let ?F = "{col. \<exists>lab\<in>set labs. lab \<noteq> [] \<and> cm (normalize_name lab) = Some col \<and> col \<noteq> []}"
  have "fst ` set ud = fst ` set ([] :: payload) \<union> ?F"
    unfolding ud by (simp only: stage_labs_keys)
  then have keys: "set (map fst ud) = ?F" by simp
  have "card (set (map fst ud)) = length (map fst ud)" using d by (rule distinct_card)
  then have len: "length ud = card ?F" unfolding keys by simp
  have "?F \<subseteq> (\<lambda>lab. the (cm (normalize_name lab))) ` set (filter (\<lambda>lab. lab \<noteq> []) labs)"
    by force
  then have "card ?F \<le> card ((\<lambda>lab. the (cm (normalize_name lab)))
                               ` set (filter (\<lambda>lab. lab \<noteq> []) labs))"
    by (intro card_mono) simp_all
  also have "\<dots> \<le> card (set (filter (\<lambda>lab. lab \<noteq> []) labs))"
    by (intro card_image_le) simp
  also have "\<dots> \<le> length (filter (\<lambda>lab. lab \<noteq> []) labs)" by (rule card_length)
  finally have le: "length ud \<le> length (filter (\<lambda>lab. lab \<noteq> []) labs)" unfolding len .
  have t: "try_update sv (store r) ud (strip e) user_name
             = (Inr (updated_line user_name ud, length ud), st')"
    unfolding try_update_named [OF assms(7,8,9)] using assms(10,11) by simp
  have st: "stage_labs cm (map strip (split (CHR ''|'') ls)) ([], mismatched_labs_log r) = (ud, mm)"
    using assms(4,5) by simp
  have p: "process_row sv cm row r =
             r\<lparr>update_log := update_log r @ [updated_line user_name ud],
               total_updates := total_updates r + length ud,
               mismatched_labs_log := mm,
               requests := requests r @ [(ud, strip e)],
               store := st'\<rparr>"
    unfolding process_row_staged [OF assms(1,2,3) st assms(12)] t using assms(6) by simp
  have "update_log (process_row sv cm row r) = update_log r @ [updated_line user_name ud]"
    and "total_updates (process_row sv cm row r) = total_updates r + length ud"
    unfolding p by simp_all
  with d len le show ?thesis unfolding updated_line_def by blast
qed

theorem payload_keyed_by_field_witness:
  "stage_labs schema (map strip (split (CHR ''|'') ''Foo | FOO | [Skill Badge] foo | Bar''))
     ([], []) = ([(''Foo'', ''Yes''), (''Bar'', ''Yes'')], [])
   \<and> update_log (process_row (table_services table_update) schema
         (upload_row ''Alice'' ''a@x.com'' ''Foo | FOO | [Skill Badge] foo | Bar'')
         (start participants))
       = [''Updated 2 labs for 'Alice': Foo, Bar.'']
   \<and> total_updates (process_row (table_services table_update) schema
         (upload_row ''Alice'' ''a@x.com'' ''Foo | FOO | [Skill Badge] foo | Bar'')
         (start participants))
       = 0 + length [(''Foo'', ''Yes''), (''Bar'', ''Yes'')]"
proof -
  let ?ls = "''Foo | FOO | [Skill Badge] foo | Bar''"
  let ?row = "upload_row ''Alice'' ''a@x.com'' ?ls"
  let ?ud = "[(''Foo'', ''Yes''), (''Bar'', ''Yes'')]"
  let ?sv = "table_services table_update"
  let ?resp = "\<lparr>data = [[(''email'', ''a@x.com''), (''name'', ''Alice''), (''Foo'', ''Yes''),
                        (''Bar'', ''Yes'')]],
                count = Some 1\<rparr>"
  let ?st' = "[[(''email'', ''a@x.com''), (''name'', ''Alice''), (''Foo'', ''Yes''), (''Bar'', ''Yes'')],
               [(''email'', ''b@x.com''), (''name'', ''Bob''), (''Foo'', ''''), (''Bar'', '''')]]"
  have h1: "?row ''User Email'' = Some ''a@x.com''" by (simp add: upload_row_def)
  have h2: "?row ''Names of Completed Skill Badges'' = Some ?ls" by (simp add: upload_row_def)
  have h3: "strip ?ls \<noteq> []" by code_simp
  have h5: "stage_labs schema (map strip (split (CHR ''|'') ?ls))
              ([], mismatched_labs_log (start participants)) = (?ud, [])"
    by code_simp
  have h5': "stage_labs schema (map strip (split (CHR ''|'') ?ls)) ([], []) = (?ud, [])"
    by code_simp
  have h6: "?ud \<noteq> []" by simp
  have h7: "update_eq ?sv (store (start participants)) ?ud (strip ''a@x.com'') = (Inr ?resp, ?st')"
    by code_simp
  have h8: "data ?resp = [(''email'', ''a@x.com''), (''name'', ''Alice''), (''Foo'', ''Yes''),
                          (''Bar'', ''Yes'')] # []"
    by simp
  have h9: "map_of [(''email'', ''a@x.com''), (''name'', ''Alice''), (''Foo'', ''Yes''),
                    (''Bar'', ''Yes'')] ''name'' = Some ''Alice''"
    by simp
  have h10: "count ?resp = Some 1" by simp
  have h12: "''Alice'' = (case ?row ''User Name'' of Some n \<Rightarrow> strip n | None \<Rightarrow> strip ''a@x.com'')"
    by code_simp
  have l: "''Updated '' @ str_nat (length ?ud) @ '' labs for '' @ quoted ''Alice'' @ '': ''
             @ join '', '' (map fst ?ud) @ ''.'' = ''Updated 2 labs for 'Alice': Foo, Bar.''"
    by code_simp
  have u: "update_log (start participants) = []" "total_updates (start participants) = 0"
    by (simp_all add: start_def)
  from payload_keyed_by_field [OF h1 h2 h3 refl h5 h6 h7 h8 h9 h10 _ h12]
  have "update_log (process_row ?sv schema ?row (start participants))
          = update_log (start participants)
            @ [''Updated '' @ str_nat (length ?ud) @ '' labs for '' @ quoted ''Alice'' @ '': ''
                 @ join '', '' (map fst ?ud) @ ''.'']"
    and "total_updates (process_row ?sv schema ?row (start participants))
           = total_updates (start participants) + length ?ud"
    by simp_all
  then show ?thesis unfolding l u using h5' by simp
qed

end
